theory Spec2Isabelle
  imports Complex_Main "HOL-Library.Sublist"
begin

section \<open>The upload queue of the BucketKit React provider\<close>

text \<open>
  This theory embeds the upload orchestration of
  \<^verbatim>\<open>packages/bucketkit-react/src/context.tsx\<close> (the component
  \<^verbatim>\<open>BucketKitProvider\<close>) and proves properties of it.

  The provider keeps three pieces of mutable state: the React state \<^verbatim>\<open>items\<close>
  (changed only through functional updaters \<^verbatim>\<open>setItems(prev => ...)\<close>, which React
  applies in the order they were queued) and the two refs \<^verbatim>\<open>abortControllers\<close> and
  \<^verbatim>\<open>uploadQueueRef\<close>.  Every callback of the provider is a closure built during one
  render: \<^verbatim>\<open>processQueue\<close> reads the constant \<^verbatim>\<open>items\<close> of the render that
  built it (its dependency list is \<^verbatim>\<open>[items, maxConcurrent, uploadFile]\<close>), whereas the
  updaters and the refs always see the current value.  The model therefore passes two things
  to an operation: the provider state (the current value of the store and of the refs) and,
  where the source reads the render's constant \<^verbatim>\<open>items\<close>, that list as the
  parameter \<open>snap\<close>.
\<close>

subsection \<open>Data model (types.ts)\<close>

datatype UploadStatus = Queued | Uploading | Complete | Error

text \<open>The parts of a browser \<^verbatim>\<open>File\<close> the provider reads.\<close>

record File =
  file_name :: string
  file_type :: string
  file_size :: nat

text \<open>
  \<^verbatim>\<open>UploadItem\<close>.  The fields \<^verbatim>\<open>id\<close> and \<^verbatim>\<open>size\<close> are named
  \<open>item_id\<close> and \<open>item_size\<close>; the optional fields are options.
\<close>

record UploadItem =
  item_id :: string
  fileName :: string
  item_size :: nat
  status :: UploadStatus
  progress :: int
  error :: "string option"
  url :: "string option"
  key :: "string option"
  contentType :: string
  item_file :: File

text \<open>\<^verbatim>\<open>PresignedUrlResponse\<close>; the field \<^verbatim>\<open>method\<close> is named \<open>p_method\<close>.\<close>

record PresignedUrlResponse =
  p_url :: string
  p_method :: string
  p_headers :: "(string \<times> string) list"
  p_key :: string
  publicUrl :: string

text \<open>The two options of \<^verbatim>\<open>BucketKitProviderOptions\<close> that the queue reads.\<close>

record options =
  autoUpload :: bool
  maxConcurrent :: int

text \<open>
  A value caught by the \<^verbatim>\<open>catch\<close> block of \<^verbatim>\<open>uploadFile\<close>: an
  \<^verbatim>\<open>Error\<close> instance with its message (\<open>ErrorObj\<close>); \<^verbatim>\<open>null\<close> or
  \<^verbatim>\<open>undefined\<close> (\<open>Nullish\<close>); or any other value that is not an
  \<^verbatim>\<open>Error\<close>, with its \<^verbatim>\<open>message\<close> property when it has one (\<open>NonError\<close>).
\<close>

datatype thrown = ErrorObj string | NonError "string option" | Nullish

text \<open>
  \<^verbatim>\<open>(error as Error).message\<close>, for a value that has properties.  On
  \<^verbatim>\<open>null\<close> and \<^verbatim>\<open>undefined\<close> the read throws a \<^verbatim>\<open>TypeError\<close>;
  \<open>uploadFile_catch\<close> below treats that case before it reads the message.
\<close>

fun message_of :: "thrown \<Rightarrow> string option" where
  "message_of (ErrorObj m) = Some m"
| "message_of (NonError m) = m"
| "message_of Nullish = None"

text \<open>
  The calls the provider makes to the two callbacks of its options, in order.
  (\<^verbatim>\<open>onUploadComplete?.(...)\<close> and \<^verbatim>\<open>onError?.(...)\<close> call the callback when
  the application supplied one; the log records those calls.)
\<close>

datatype callback = OnUploadComplete UploadItem | OnError thrown UploadItem

text \<open>
  A running invocation of the asynchronous function \<^verbatim>\<open>uploadFile\<close>.  It is suspended
  either at \<^verbatim>\<open>await getPresignedUrl(item.file)\<close> (\<open>Resolving\<close>) or at the promise
  wrapping the \<^verbatim>\<open>XMLHttpRequest\<close> (\<open>Sending\<close>, with the resolved destination);
  \<open>Aborted\<close> is the state after \<^verbatim>\<open>xhr.abort()\<close> has rejected that promise with
  \<^verbatim>\<open>new Error("Upload cancelled")\<close> and before the \<^verbatim>\<open>catch\<close> block has run.
  \<open>t_ctl\<close> identifies the invocation's own \<^verbatim>\<open>AbortController\<close>, \<open>t_item\<close> is
  the argument \<^verbatim>\<open>item\<close> the closure holds, and \<open>t_signal_aborted\<close> is
  \<^verbatim>\<open>abortController.signal.aborted\<close>.
\<close>

datatype phase = Resolving | Sending PresignedUrlResponse | Aborted

record transfer =
  t_ctl :: nat
  t_item :: UploadItem
  t_phase :: phase
  t_signal_aborted :: bool

text \<open>
  The provider's state.  \<open>items\<close> is the value of the React state after every queued
  updater; \<open>abortControllers\<close> and \<open>uploadQueueRef\<close> are the two refs; \<open>transfers\<close>
  are the suspended invocations of \<^verbatim>\<open>uploadFile\<close>; \<open>timers\<close> are the pending
  \<^verbatim>\<open>setTimeout(() => processQueue(), 0)\<close> callbacks, each given by the \<^verbatim>\<open>items\<close>
  its \<^verbatim>\<open>processQueue\<close> closed over; \<open>calls\<close> logs the callback invocations;
  \<open>nextCtl\<close> numbers the \<^verbatim>\<open>AbortController\<close> objects created so far.
\<close>

record provider =
  items :: "UploadItem list"
  abortControllers :: "string \<rightharpoonup> nat"
  uploadQueueRef :: "string set"
  transfers :: "transfer list"
  timers :: "UploadItem list list"
  calls :: "callback list"
  nextCtl :: nat

definition initial :: provider where
  "initial = \<lparr>items = [], abortControllers = Map.empty, uploadQueueRef = {},
     transfers = [], timers = [], calls = [], nextCtl = 0\<rparr>"

subsection \<open>JavaScript library functions\<close>

text \<open>
  \<^verbatim>\<open>xs.slice(0, n)\<close> for an integer \<open>n\<close>: the first \<open>n\<close> elements, and for a
  negative \<open>n\<close> everything but the last \<open>-n\<close> elements.
\<close>

definition slice0 :: "'a list \<Rightarrow> int \<Rightarrow> 'a list" where
  "slice0 xs n = (if n < 0 then take (nat (int (length xs) + n)) xs else take (nat n) xs)"

text \<open>\<^verbatim>\<open>Math.round\<close>: the nearest integer, a tie going up.\<close>

definition Math_round :: "real \<Rightarrow> int" where
  "Math_round x = \<lfloor>x + 1 / 2\<rfloor>"

text \<open>
  The decimal numeral of a number, as the template literal
  \<^verbatim>\<open>`Upload failed with status ${xhr.status}`\<close> prints it.
\<close>

definition digit_char :: "nat \<Rightarrow> char" where
  "digit_char d = ''0123456789'' ! d"

function string_of_nat :: "nat \<Rightarrow> string" where
  "string_of_nat n =
     (if n < 10 then [digit_char n]
      else string_of_nat (n div 10) @ [digit_char (n mod 10)])"
  by pat_completeness auto
termination
  by (relation "measure (\<lambda>n. n)") auto

text \<open>
  \<^verbatim>\<open>a || d\<close> for an optional string \<open>a\<close>: \<^verbatim>\<open>undefined\<close> and the empty string are
  falsy.
\<close>

definition or_else :: "string option \<Rightarrow> string \<Rightarrow> string" where
  "or_else a d = (case a of None \<Rightarrow> d | Some s \<Rightarrow> if s = [] then d else s)"

subsection \<open>updateItem and getPresignedUrl\<close>

text \<open>
  \<^verbatim>\<open>updateItem(id, updates)\<close>: the updater maps the store, merging \<^verbatim>\<open>updates\<close> into
  every item with that id.  The partial record \<^verbatim>\<open>updates\<close> is given as the function that
  merges it (\<^verbatim>\<open>{ ...item, ...updates }\<close>).
\<close>

definition updateItem :: "string \<Rightarrow> (UploadItem \<Rightarrow> UploadItem) \<Rightarrow> provider \<Rightarrow> provider" where
  "updateItem i updates st =
     st\<lparr>items := map (\<lambda>item. if item_id item = i then updates item else item) (items st)\<rparr>"

text \<open>
  What the resolver's \<^verbatim>\<open>fetch\<close> comes back with: a rejection (of \<^verbatim>\<open>fetch\<close> itself or
  of the final \<^verbatim>\<open>response.json()\<close>), a response that is not \<^verbatim>\<open>ok\<close> with the
  \<^verbatim>\<open>error\<close> and \<^verbatim>\<open>message\<close> strings of its body (both absent when the body is not
  JSON: \<^verbatim>\<open>.catch(() => ({}))\<close>), or a destination.
\<close>

record error_body =
  body_error :: "string option"
  body_message :: "string option"

datatype fetch_outcome =
  FetchRejected thrown
| ResponseNotOk error_body
| ResponseOk PresignedUrlResponse

definition getPresignedUrl :: "fetch_outcome \<Rightarrow> thrown + PresignedUrlResponse" where
  "getPresignedUrl r =
     (case r of
        FetchRejected e \<Rightarrow> Inl e
      | ResponseNotOk b \<Rightarrow>
          Inl (ErrorObj (or_else (body_error b)
                 (or_else (body_message b) ''Failed to get upload URL'')))
      | ResponseOk p \<Rightarrow> Inr p)"

subsection \<open>uploadFile\<close>

text \<open>
  The synchronous start of \<^verbatim>\<open>uploadFile(item)\<close>, up to its first \<^verbatim>\<open>await\<close>: a new
  \<^verbatim>\<open>AbortController\<close> is stored under the item's id, the item is set to
  \<^verbatim>\<open>uploading\<close> with progress 0, and the resolver request is started.
\<close>

definition uploadFile :: "UploadItem \<Rightarrow> provider \<Rightarrow> provider" where
  "uploadFile item st =
     (let c = nextCtl st;
          st1 = st\<lparr>nextCtl := Suc c,
                   abortControllers := (abortControllers st)(item_id item \<mapsto> c)\<rparr>;
          st2 = updateItem (item_id item) (\<lambda>i. i\<lparr>status := Uploading, progress := 0\<rparr>) st1
      in st2\<lparr>transfers := transfers st2 @
            [\<lparr>t_ctl = c, t_item = item, t_phase = Resolving, t_signal_aborted = False\<rparr>]\<rparr>)"

text \<open>The \<^verbatim>\<open>finally\<close> block: both refs drop the item's id, and the invocation ends.\<close>

definition uploadFile_finally :: "transfer \<Rightarrow> provider \<Rightarrow> provider" where
  "uploadFile_finally t st =
     st\<lparr>abortControllers := (abortControllers st)(item_id (t_item t) := None),
        uploadQueueRef := uploadQueueRef st - {item_id (t_item t)},
        transfers := filter (\<lambda>u. t_ctl u \<noteq> t_ctl t) (transfers st)\<rparr>"

text \<open>The rest of the \<^verbatim>\<open>try\<close> block after the transfer promise resolved.\<close>

definition uploadFile_complete :: "PresignedUrlResponse \<Rightarrow> transfer \<Rightarrow> provider \<Rightarrow> provider" where
  "uploadFile_complete presigned t st =
     (let item = t_item t;
          st1 = updateItem (item_id item)
                  (\<lambda>i. i\<lparr>status := Complete, progress := 100,
                         url := Some (publicUrl presigned), key := Some (p_key presigned)\<rparr>) st;
          completedItem = item\<lparr>status := Complete, progress := 100,
                         url := Some (publicUrl presigned), key := Some (p_key presigned)\<rparr>
      in uploadFile_finally t (st1\<lparr>calls := calls st1 @ [OnUploadComplete completedItem]\<rparr>))"

text \<open>
  The \<^verbatim>\<open>catch\<close> block, for the caught value \<open>e\<close>, followed by \<^verbatim>\<open>finally\<close>.
  The block starts by reading \<^verbatim>\<open>(error as Error).message\<close>.  For \<^verbatim>\<open>null\<close> and
  \<^verbatim>\<open>undefined\<close> that read throws, so the block ends there: the store is not updated
  and \<^verbatim>\<open>onError\<close> is not called; only \<^verbatim>\<open>finally\<close> runs.
\<close>

definition uploadFile_catch :: "thrown \<Rightarrow> transfer \<Rightarrow> provider \<Rightarrow> provider" where
  "uploadFile_catch e t st =
     (let item = t_item t in
      uploadFile_finally t
        (if e = Nullish then st
         else if message_of e = Some ''Upload cancelled''
         then updateItem (item_id item) (\<lambda>i. i\<lparr>status := Error, error := Some ''Cancelled''\<rparr>) st
         else
           (let errorMessage = (case e of ErrorObj m \<Rightarrow> m | _ \<Rightarrow> ''Upload failed'');
                st1 = updateItem (item_id item)
                        (\<lambda>i. i\<lparr>status := Error, error := Some errorMessage\<rparr>) st
            in st1\<lparr>calls := calls st1 @
                 [OnError (case e of ErrorObj m \<Rightarrow> e | _ \<Rightarrow> ErrorObj errorMessage)
                    item]\<rparr>)))"

text \<open>
  The events that resume a suspended invocation, each addressed by the invocation's
  controller number.  An event for an invocation that is not in the matching phase changes
  nothing.  The code that follows an event up to the end of \<^verbatim>\<open>uploadFile\<close> runs
  before any other callback, so each event is one step.  The two callbacks are taken to
  return normally, and a destination to be one that \<^verbatim>\<open>xhr.open\<close> and
  \<^verbatim>\<open>xhr.setRequestHeader\<close> accept.
\<close>

definition the_transfer :: "nat \<Rightarrow> provider \<Rightarrow> transfer option" where
  "the_transfer c st = find (\<lambda>t. t_ctl t = c) (transfers st)"

definition set_phase :: "nat \<Rightarrow> phase \<Rightarrow> provider \<Rightarrow> provider" where
  "set_phase c ph st =
     st\<lparr>transfers := map (\<lambda>t. if t_ctl t = c then t\<lparr>t_phase := ph\<rparr> else t) (transfers st)\<rparr>"

text \<open>
  \<^verbatim>\<open>await getPresignedUrl(item.file)\<close> settles.  On a destination the promise executor
  runs: the request is opened and sent and the listeners are registered, among them the
  \<^verbatim>\<open>abort\<close> listener of the controller's signal.
\<close>

definition presigned_settled :: "nat \<Rightarrow> fetch_outcome \<Rightarrow> provider \<Rightarrow> provider" where
  "presigned_settled c r st =
     (case the_transfer c st of
        None \<Rightarrow> st
      | Some t \<Rightarrow>
          (case t_phase t of
             Resolving \<Rightarrow>
               (case getPresignedUrl r of
                  Inl e \<Rightarrow> uploadFile_catch e t st
                | Inr presigned \<Rightarrow> set_phase c (Sending presigned) st)
           | _ \<Rightarrow> st))"

text \<open>
  The \<^verbatim>\<open>progress\<close> listener is not part of the model: it writes only the
  \<^verbatim>\<open>progress\<close> field of the record, with a value computed in floating point.
\<close>

text \<open>The \<^verbatim>\<open>load\<close> listener, with \<^verbatim>\<open>xhr.status\<close>.\<close>

definition xhr_load :: "nat \<Rightarrow> nat \<Rightarrow> provider \<Rightarrow> provider" where
  "xhr_load c http_status st =
     (case the_transfer c st of
        None \<Rightarrow> st
      | Some t \<Rightarrow>
          (case t_phase t of
             Sending presigned \<Rightarrow>
               (if 200 \<le> http_status \<and> http_status < 300
                then uploadFile_complete presigned t st
                else uploadFile_catch
                       (ErrorObj (''Upload failed with status '' @ string_of_nat http_status)) t st)
           | _ \<Rightarrow> st))"

text \<open>The \<^verbatim>\<open>error\<close> listener.\<close>

definition xhr_error :: "nat \<Rightarrow> provider \<Rightarrow> provider" where
  "xhr_error c st =
     (case the_transfer c st of
        None \<Rightarrow> st
      | Some t \<Rightarrow>
          (case t_phase t of
             Sending presigned \<Rightarrow> uploadFile_catch (ErrorObj ''Upload failed'') t st
           | _ \<Rightarrow> st))"

text \<open>
  The continuation of an invocation whose request was aborted: the \<^verbatim>\<open>abort\<close> listener
  rejected with \<^verbatim>\<open>new Error("Upload cancelled")\<close>, and the \<^verbatim>\<open>catch\<close> block runs as
  soon as the running callback has returned.
\<close>

definition abort_rejected :: "nat \<Rightarrow> provider \<Rightarrow> provider" where
  "abort_rejected c st =
     (case the_transfer c st of
        None \<Rightarrow> st
      | Some t \<Rightarrow>
          (case t_phase t of
             Aborted \<Rightarrow> uploadFile_catch (ErrorObj ''Upload cancelled'') t st
           | _ \<Rightarrow> st))"

text \<open>
  \<^verbatim>\<open>controller.abort()\<close>.  A signal that is already aborted ignores the call.  Otherwise
  the signal becomes aborted and its \<^verbatim>\<open>abort\<close> listeners run: the only listener is the
  one the promise executor registers, so it exists exactly in the phase \<open>Sending\<close>, where it
  calls \<^verbatim>\<open>xhr.abort()\<close>.  While the invocation still awaits the resolver no listener is
  registered (and \<^verbatim>\<open>fetch\<close> is called without the signal), so nothing else happens.
\<close>

definition controller_abort :: "nat \<Rightarrow> provider \<Rightarrow> provider" where
  "controller_abort c st =
     st\<lparr>transfers :=
          map (\<lambda>t. if t_ctl t = c \<and> \<not> t_signal_aborted t
                   then (case t_phase t of
                           Sending presigned \<Rightarrow> t\<lparr>t_phase := Aborted, t_signal_aborted := True\<rparr>
                         | _ \<Rightarrow> t\<lparr>t_signal_aborted := True\<rparr>)
                   else t)
            (transfers st)\<rparr>"

subsection \<open>processQueue and the public operations\<close>

text \<open>
  \<^verbatim>\<open>processQueue\<close>, built by the render whose \<^verbatim>\<open>items\<close> is \<open>snap\<close>.  The queued
  items and the uploading count are read from \<open>snap\<close>; the marker set
  \<^verbatim>\<open>uploadQueueRef\<close> is read once, by the filter, before the loop.
\<close>

definition processQueue :: "int \<Rightarrow> UploadItem list \<Rightarrow> provider \<Rightarrow> provider" where
  "processQueue maxConc snap st =
     (let queuedItems =
            filter (\<lambda>item. status item = Queued \<and> item_id item \<notin> uploadQueueRef st) snap;
          uploadingCount = length (filter (\<lambda>item. status item = Uploading) snap);
          slotsAvailable = maxConc - int uploadingCount;
          itemsToUpload = slice0 queuedItems slotsAvailable
      in fold (\<lambda>item s.
                 uploadFile item (s\<lparr>uploadQueueRef := insert (item_id item) (uploadQueueRef s)\<rparr>))
           itemsToUpload st)"

text \<open>
  The two parts of \<^verbatim>\<open>processQueue\<close> by name: the items it selects
  (\<^verbatim>\<open>itemsToUpload\<close>) and the body of its loop.
\<close>

definition itemsToUpload :: "int \<Rightarrow> UploadItem list \<Rightarrow> provider \<Rightarrow> UploadItem list" where
  "itemsToUpload maxConc snap st =
     slice0 (filter (\<lambda>item. status item = Queued \<and> item_id item \<notin> uploadQueueRef st) snap)
       (maxConc - int (length (filter (\<lambda>item. status item = Uploading) snap)))"

definition admit :: "UploadItem \<Rightarrow> provider \<Rightarrow> provider" where
  "admit item s = uploadFile item (s\<lparr>uploadQueueRef := insert (item_id item) (uploadQueueRef s)\<rparr>)"

text \<open>
  \<^verbatim>\<open>addFiles(files)\<close>.  Each file comes with the id \<^verbatim>\<open>generateUploadId()\<close> returned
  for it.  With \<^verbatim>\<open>autoUpload\<close> the timer is given the \<^verbatim>\<open>processQueue\<close> of the render
  that built this \<^verbatim>\<open>addFiles\<close>, that is, the one reading \<open>snap\<close>.
\<close>

definition newItem :: "string \<times> File \<Rightarrow> UploadItem" where
  "newItem p =
     \<lparr>item_id = fst p, fileName = file_name (snd p), item_size = file_size (snd p),
      status = Queued, progress = 0, error = None, url = None, key = None,
      contentType = file_type (snd p), item_file = snd p\<rparr>"

definition addFiles :: "options \<Rightarrow> UploadItem list \<Rightarrow> (string \<times> File) list \<Rightarrow> provider \<Rightarrow> provider" where
  "addFiles opts snap files st =
     (let newItems = map newItem files;
          st1 = st\<lparr>items := items st @ newItems\<rparr>
      in if autoUpload opts then st1\<lparr>timers := timers st1 @ [snap]\<rparr> else st1)"

text \<open>A pending timer fires: its \<^verbatim>\<open>processQueue\<close> runs.\<close>

definition runTimer :: "options \<Rightarrow> provider \<Rightarrow> provider" where
  "runTimer opts st =
     (case timers st of
        [] \<Rightarrow> st
      | snap # rest \<Rightarrow> processQueue (maxConcurrent opts) snap (st\<lparr>timers := rest\<rparr>))"

text \<open>\<^verbatim>\<open>uploadFiles(files?)\<close>; an array, even an empty one, is truthy.\<close>

definition uploadFiles :: "options \<Rightarrow> UploadItem list \<Rightarrow> (string \<times> File) list option \<Rightarrow> provider \<Rightarrow> provider" where
  "uploadFiles opts snap files st =
     processQueue (maxConcurrent opts) snap
       (case files of None \<Rightarrow> st | Some fs \<Rightarrow> addFiles opts snap fs st)"

definition cancelUpload :: "string \<Rightarrow> provider \<Rightarrow> provider" where
  "cancelUpload i st =
     (let st1 = (case abortControllers st i of
                   Some controller \<Rightarrow> controller_abort controller st
                 | None \<Rightarrow> st)
      in st1\<lparr>items := map (\<lambda>item. if item_id item = i
                                   then item\<lparr>status := Error, error := Some ''Cancelled''\<rparr>
                                   else item) (items st1)\<rparr>)"

definition removeItem :: "string \<Rightarrow> provider \<Rightarrow> provider" where
  "removeItem i st =
     (let st1 = cancelUpload i st
      in st1\<lparr>items := filter (\<lambda>item. item_id item \<noteq> i) (items st1)\<rparr>)"

definition retryUpload :: "UploadItem list \<Rightarrow> string \<Rightarrow> provider \<Rightarrow> provider" where
  "retryUpload snap i st =
     (let st1 = st\<lparr>items := map (\<lambda>item. if item_id item = i
                                        then item\<lparr>status := Queued, progress := 0, error := None\<rparr>
                                        else item) (items st)\<rparr>
      in st1\<lparr>timers := timers st1 @ [snap]\<rparr>)"

definition clearCompleted :: "provider \<Rightarrow> provider" where
  "clearCompleted st =
     st\<lparr>items := filter (\<lambda>item. status item \<noteq> Complete \<and> status item \<noteq> Error) (items st)\<rparr>"

subsection \<open>Derived state\<close>

definition isUploading :: "UploadItem list \<Rightarrow> bool" where
  "isUploading its = list_ex (\<lambda>item. status item = Uploading) its"

text \<open>The memo \<^verbatim>\<open>progress\<close> of the context value.\<close>

definition progress_overall :: "UploadItem list \<Rightarrow> int" where
  "progress_overall its =
     (let relevantItems = filter (\<lambda>item. status item = Uploading \<or> status item = Complete) its
      in if length relevantItems = 0 then 0
         else (let totalProgress = fold (\<lambda>item acc. acc + progress item) relevantItems 0
               in Math_round (real_of_int totalProgress / real (length relevantItems))))"

text \<open>The number of records that are uploading.\<close>

definition uploadingCount :: "UploadItem list \<Rightarrow> nat" where
  "uploadingCount its = length (filter (\<lambda>item. status item = Uploading) its)"

subsection \<open>Example states\<close>

text \<open>Concrete files, options and provider states used to run the operations.\<close>

definition example_file :: "string \<Rightarrow> File" where
  "example_file n = \<lparr>file_name = n, file_type = ''image/png'', file_size = 10\<rparr>"

definition one_at_a_time :: options where
  "one_at_a_time = \<lparr>autoUpload = True, maxConcurrent = 1\<rparr>"

definition destination :: PresignedUrlResponse where
  "destination = \<lparr>p_url = ''https://bucket.example/a'', p_method = ''PUT'', p_headers = [],
     p_key = ''uploads/a.png'', publicUrl = ''https://cdn.example/uploads/a.png''\<rparr>"

text \<open>
  The application adds two files to the empty provider (the render it calls from shows no
  items) and the timer of \<^verbatim>\<open>addFiles\<close> fires.
\<close>

definition two_added :: provider where
  "two_added =
     runTimer one_at_a_time
       (addFiles one_at_a_time (items initial)
          [(''a'', example_file ''a.png''), (''b'', example_file ''b.png'')] initial)"

text \<open>
  After the next render, which shows the two items, the application calls
  \<^verbatim>\<open>uploadFiles\<close> with a third file, and the timer of the \<^verbatim>\<open>addFiles\<close> inside it
  fires.
\<close>

definition third_uploaded :: provider where
  "third_uploaded =
     runTimer one_at_a_time
       (uploadFiles one_at_a_time (items two_added)
          (Some [(''c'', example_file ''c.png'')]) two_added)"

text \<open>A store of two queued items, as a render shows it.\<close>

definition two_queued :: provider where
  "two_queued =
     initial\<lparr>items := [newItem (''a'', example_file ''a.png''),
                         newItem (''b'', example_file ''b.png'')]\<rparr>"

text \<open>
  One item, admitted by \<^verbatim>\<open>processQueue\<close>: it is uploading and its resolver request is
  pending.  Then the states after the resolver answered, and after the request loaded.
\<close>

definition resolving_a :: provider where
  "resolving_a =
     processQueue 1 [newItem (''a'', example_file ''a.png'')]
       (initial\<lparr>items := [newItem (''a'', example_file ''a.png'')]\<rparr>)"

definition sending_a :: provider where
  "sending_a = presigned_settled 0 (ResponseOk destination) resolving_a"

definition complete_a :: provider where
  "complete_a = xhr_load 0 200 sending_a"

text \<open>A store with one record of each status.\<close>

definition one_of_each :: provider where
  "one_of_each =
     initial\<lparr>items :=
       [newItem (''q'', example_file ''q.png''),
        newItem (''u'', example_file ''u.png'')\<lparr>status := Uploading, progress := 40\<rparr>,
        newItem (''c'', example_file ''c.png'')\<lparr>status := Complete, progress := 100\<rparr>,
        newItem (''e'', example_file ''e.png'')\<lparr>status := Error, error := Some ''Upload failed''\<rparr>]\<rparr>"

text \<open>A complete record (progress 100) next to an uploading record with progress \<open>p\<close>.\<close>

definition complete_and_uploading :: "int \<Rightarrow> UploadItem list" where
  "complete_and_uploading p =
     [newItem (''c'', example_file ''c.png'')\<lparr>status := Complete, progress := 100\<rparr>,
      newItem (''u'', example_file ''u.png'')\<lparr>status := Uploading, progress := p\<rparr>]"

text \<open>The invocation of \<^verbatim>\<open>uploadFile\<close> that runs in the state \<open>resolving_a\<close>.\<close>

definition transfer_a :: transfer where
  "transfer_a = \<lparr>t_ctl = 0, t_item = newItem (''a'', example_file ''a.png''),
     t_phase = Resolving, t_signal_aborted = False\<rparr>"

text \<open>
  Bodies of resolver responses that are not \<^verbatim>\<open>ok\<close>:
  \<^verbatim>\<open>{"error": "Upload cancelled"}\<close> and \<^verbatim>\<open>{"message": "File too large"}\<close>.
\<close>

definition cancelled_body :: error_body where
  "cancelled_body = \<lparr>body_error = Some ''Upload cancelled'', body_message = None\<rparr>"

definition too_large_body :: error_body where
  "too_large_body = \<lparr>body_error = None, body_message = Some ''File too large''\<rparr>"

text \<open>
  The record of \<open>resolving_a\<close> is cancelled while the resolver request is pending; then
  the resolver answers with a destination and the request loads with status 200.
\<close>

definition cancelled_while_resolving :: provider where
  "cancelled_while_resolving = cancelUpload ''a'' resolving_a"

definition loaded_after_cancel :: provider where
  "loaded_after_cancel =
     xhr_load 0 200 (presigned_settled 0 (ResponseOk destination) cancelled_while_resolving)"

text \<open>
  \<^verbatim>\<open>processQueue\<close> of the render that shows two queued items, called once and called
  twice in a row, with the limit 1.
\<close>

definition admitted_once :: provider where
  "admitted_once = processQueue 1 (items two_queued) two_queued"

definition admitted_twice :: provider where
  "admitted_twice = processQueue 1 (items two_queued) admitted_once"

text \<open>
  The record of \<open>sending_a\<close> is cancelled while its request is being sent: the state
  right after \<^verbatim>\<open>cancelUpload\<close>, before the \<^verbatim>\<open>catch\<close> block has run.
\<close>

definition aborted_a :: provider where
  "aborted_a = cancelUpload ''a'' sending_a"

section \<open>Properties\<close>

lemma clearCompleted_items:
  "items (clearCompleted st) =
     filter (\<lambda>item. status item = Queued \<or> status item = Uploading) (items st)"
proof -
  have "(status item \<noteq> Complete \<and> status item \<noteq> Error) =
        (status item = Queued \<or> status item = Uploading)" for item :: UploadItem
    by (cases "status item") simp_all
  then show ?thesis by (simp add: clearCompleted_def)
qed

lemmas example_defs = example_file_def one_at_a_time_def destination_def two_added_def
  third_uploaded_def two_queued_def resolving_a_def sending_a_def complete_a_def
  one_of_each_def initial_def newItem_def

lemmas op_defs = runTimer_def addFiles_def uploadFiles_def processQueue_def slice0_def
  uploadFile_def updateItem_def presigned_settled_def the_transfer_def set_phase_def
  getPresignedUrl_def xhr_load_def uploadFile_complete_def uploadFile_finally_def
  uploadFile_catch_def cancelUpload_def controller_abort_def abort_rejected_def or_else_def

subsection \<open>clearCompleted\<close>

text \<open>
  Claim C8.  For every provider state, \<^verbatim>\<open>clearCompleted\<close> removes exactly the records
  whose status is \<open>Complete\<close> or \<open>Error\<close>: the new store is the list of the queued
  and uploading records of the old one, each unchanged and in the old order, and neither
  the refs nor the running transfers, timers or callback log change.
\<close>

theorem clearCompleted_keeps_queued_and_uploading:
  "items (clearCompleted st) =
     filter (\<lambda>item. status item = Queued \<or> status item = Uploading) (items st)
   \<and> subseq (items (clearCompleted st)) (items st)
   \<and> set (items (clearCompleted st)) =
       {item. item \<in> set (items st) \<and> status item \<noteq> Complete \<and> status item \<noteq> Error}
   \<and> abortControllers (clearCompleted st) = abortControllers st
   \<and> uploadQueueRef (clearCompleted st) = uploadQueueRef st
   \<and> transfers (clearCompleted st) = transfers st
   \<and> timers (clearCompleted st) = timers st
   \<and> calls (clearCompleted st) = calls st"
proof -
  have "subseq (items (clearCompleted st)) (items st)"
    by (simp add: clearCompleted_def)
  moreover have "set (items (clearCompleted st)) =
       {item. item \<in> set (items st) \<and> status item \<noteq> Complete \<and> status item \<noteq> Error}"
    by (auto simp: clearCompleted_def)
  moreover have "abortControllers (clearCompleted st) = abortControllers st"
    "uploadQueueRef (clearCompleted st) = uploadQueueRef st"
    "transfers (clearCompleted st) = transfers st"
    "timers (clearCompleted st) = timers st"
    "calls (clearCompleted st) = calls st"
    by (simp_all add: clearCompleted_def)
  ultimately show ?thesis
    using clearCompleted_items [of st] by simp
qed

text \<open>
  On the store with one record of each status, the queued and the uploading record are
  kept, with their ids and progress.
\<close>

theorem clearCompleted_keeps_queued_and_uploading_witness:
  "map item_id (items (clearCompleted one_of_each)) = [''q'', ''u'']
   \<and> map progress (items (clearCompleted one_of_each)) = [0, 40]
   \<and> subseq (items (clearCompleted one_of_each)) (items one_of_each)"
  using clearCompleted_keeps_queued_and_uploading [of one_of_each]
  by (simp add: one_of_each_def initial_def newItem_def example_file_def)

subsection \<open>retryUpload\<close>

text \<open>
  Claim C9.  \<^verbatim>\<open>retryUpload(id)\<close> has no status precondition: whatever the status of a
  record with that id, the record becomes \<open>Queued\<close> with progress 0 and no error, every
  other record is unchanged, and one admission pass is scheduled (a timer holding the
  \<^verbatim>\<open>processQueue\<close> of the calling render).  The running transfers and both refs are
  left alone, so a transfer of that id that is still in flight continues.
\<close>

theorem retryUpload_has_no_status_precondition:
  "length (items (retryUpload snap i st)) = length (items st)
   \<and> (\<forall>k < length (items st).
         items (retryUpload snap i st) ! k =
           (if item_id (items st ! k) = i
            then (items st ! k)\<lparr>status := Queued, progress := 0, error := None\<rparr>
            else items st ! k))
   \<and> timers (retryUpload snap i st) = timers st @ [snap]
   \<and> transfers (retryUpload snap i st) = transfers st
   \<and> abortControllers (retryUpload snap i st) = abortControllers st
   \<and> uploadQueueRef (retryUpload snap i st) = uploadQueueRef st
   \<and> calls (retryUpload snap i st) = calls st"
  by (simp add: retryUpload_def)

text \<open>
  Retrying the record whose request is being sent: the record is queued again while its
  transfer and its marker are still there.
\<close>

theorem retryUpload_has_no_status_precondition_witness:
  "map status (items sending_a) = [Uploading]
   \<and> status (items (retryUpload (items sending_a) ''a'' sending_a) ! 0) = Queued
   \<and> progress (items (retryUpload (items sending_a) ''a'' sending_a) ! 0) = 0
   \<and> error (items (retryUpload (items sending_a) ''a'' sending_a) ! 0) = None
   \<and> map t_phase (transfers (retryUpload (items sending_a) ''a'' sending_a)) = [Sending destination]
   \<and> uploadQueueRef (retryUpload (items sending_a) ''a'' sending_a) = {''a''}
   \<and> length (timers (retryUpload (items sending_a) ''a'' sending_a)) = 1"
proof -
  have st: "map status (items sending_a) = [Uploading]"
    "map item_id (items sending_a) = [''a'']"
    "map t_phase (transfers sending_a) = [Sending destination]"
    "uploadQueueRef sending_a = {''a''}"
    "timers sending_a = []"
    by (simp_all add: example_defs op_defs)
  from st(1) have len: "0 < length (items sending_a)" by auto
  from st(2) len have id0: "item_id (items sending_a ! 0) = ''a''"
    by (cases "items sending_a") auto
  show ?thesis
    using retryUpload_has_no_status_precondition [of "items sending_a" "''a''" sending_a] st len id0
    by simp
qed

subsection \<open>The overall progress\<close>

text \<open>
  The source adds the progress values and divides in floating point; for the integers the
  store holds, the quotient is exact enough that \<^verbatim>\<open>Math.round\<close> of it is the rounding
  of the exact quotient, which is what the model computes.
\<close>

lemma fold_progress:
  "fold (\<lambda>item acc. acc + progress item) xs a = a + sum_list (map progress xs)"
  by (induction xs arbitrary: a) simp_all

lemma Math_round_bounds:
  "real_of_int (Math_round x) \<le> x + 1 / 2 \<and> x - 1 / 2 < real_of_int (Math_round x)"
  unfolding Math_round_def by linarith

lemma Math_round_of_int: "Math_round (real_of_int k) = k"
  unfolding Math_round_def by linarith

lemma Math_round_numeral [simp]: "Math_round (numeral k) = numeral k"
  using Math_round_of_int [of "numeral k"] by simp

lemma Math_round_fraction [simp]:
  "Math_round (numeral a / numeral b) = (2 * numeral a + numeral b) div (2 * numeral b)"
proof -
  have "real_of_int (numeral a) / real_of_int (numeral b) + 1 / 2 =
        real_of_int (2 * numeral a + numeral b) / real_of_int (2 * numeral b)"
    by (simp add: field_simps)
  then show ?thesis
    unfolding Math_round_def
    by (metis floor_divide_of_int_eq of_int_numeral)
qed

lemma progress_overall_eq:
  "progress_overall its =
     (let rel = filter (\<lambda>item. status item = Uploading \<or> status item = Complete) its
      in if rel = [] then 0
         else Math_round (real_of_int (sum_list (map progress rel)) / real (length rel)))"
  by (simp add: progress_overall_def fold_progress Let_def)

text \<open>
  Claim C7, as stated, fails: the overall progress is not the average itself.  For a
  complete record (progress 100) and an uploading record with progress 41 the average is
  70.5 and the provider reports 71.
\<close>

theorem progress_overall_average_counterexample:
  "progress_overall (complete_and_uploading 41) = 71
   \<and> real_of_int (progress_overall (complete_and_uploading 41)) \<noteq> (100 + 41) / 2"
  by (simp add: progress_overall_eq complete_and_uploading_def newItem_def)

text \<open>
  Claim C7, amended.  Let \<open>rel\<close> be the records whose status is \<open>Uploading\<close> or
  \<open>Complete\<close> and \<open>avg\<close> the average of their progress.  The overall progress is 0 when
  \<open>rel\<close> is empty; otherwise it is \<open>avg\<close> rounded to the nearest integer, a tie going up
  (\<^verbatim>\<open>Math.round\<close>), hence \<open>avg\<close> itself whenever the average is an integer.  Queued and
  error records do not count: the value is that of \<open>rel\<close> alone.
\<close>

theorem progress_overall_is_rounded_average:
  assumes rel: "rel = filter (\<lambda>item. status item = Uploading \<or> status item = Complete) its"
    and avg: "avg = real_of_int (sum_list (map progress rel)) / real (length rel)"
  shows "(rel = [] \<longrightarrow> progress_overall its = 0)
    \<and> (rel \<noteq> [] \<longrightarrow>
          real_of_int (progress_overall its) \<le> avg + 1 / 2
          \<and> avg - 1 / 2 < real_of_int (progress_overall its))
    \<and> (rel \<noteq> [] \<and> int (length rel) dvd sum_list (map progress rel) \<longrightarrow>
          real_of_int (progress_overall its) = avg)
    \<and> progress_overall rel = progress_overall its"
proof -
  have empty: "rel = [] \<longrightarrow> progress_overall its = 0"
    using rel by (simp add: progress_overall_eq)
  have val: "progress_overall its = Math_round avg" if "rel \<noteq> []"
    using that rel avg by (simp add: progress_overall_eq Let_def)
  have near: "rel \<noteq> [] \<longrightarrow>
          real_of_int (progress_overall its) \<le> avg + 1 / 2
          \<and> avg - 1 / 2 < real_of_int (progress_overall its)"
    using val Math_round_bounds [of avg] by simp
  have exact: "real_of_int (progress_overall its) = avg"
    if ne: "rel \<noteq> []" and d: "int (length rel) dvd sum_list (map progress rel)"
  proof -
    from d obtain q where q: "sum_list (map progress rel) = int (length rel) * q" ..
    from ne have "real (length rel) \<noteq> 0" by simp
    with q avg have "avg = real_of_int q" by simp
    with val [OF ne] show ?thesis by (simp add: Math_round_of_int)
  qed
  have same: "progress_overall rel = progress_overall its"
    using rel by (simp add: progress_overall_eq)
  from empty near exact same show ?thesis by blast
qed

text \<open>
  The example of the specification: a complete record and an uploading record with
  progress 40 give 70, with or without a queued record after them.
\<close>

theorem progress_overall_is_rounded_average_witness:
  "progress_overall (complete_and_uploading 40) = 70
   \<and> progress_overall (complete_and_uploading 40 @ [newItem (''q'', example_file ''q.png'')]) = 70
   \<and> progress_overall [newItem (''q'', example_file ''q.png'')] = 0"
proof -
  let ?q = "newItem (''q'', example_file ''q.png'')"
  let ?its = "complete_and_uploading 40 @ [?q]"
  have rel: "complete_and_uploading 40 =
      filter (\<lambda>item. status item = Uploading \<or> status item = Complete) ?its"
    by (simp add: complete_and_uploading_def newItem_def)
  have avg: "(70::real) = real_of_int (sum_list (map progress (complete_and_uploading 40)))
      / real (length (complete_and_uploading 40))"
    by (simp add: complete_and_uploading_def newItem_def)
  have ne: "complete_and_uploading 40 \<noteq> []"
    and d: "int (length (complete_and_uploading 40)) dvd
       sum_list (map progress (complete_and_uploading 40))"
    by (simp_all add: complete_and_uploading_def newItem_def)
  from progress_overall_is_rounded_average [OF rel avg] ne d
  have "real_of_int (progress_overall ?its) = 70"
    and "progress_overall (complete_and_uploading 40) = progress_overall ?its"
    by simp_all
  moreover have rel0: "[] = filter (\<lambda>item. status item = Uploading \<or> status item = Complete) [?q]"
    by (simp add: newItem_def)
  have "progress_overall [?q] = 0"
    using progress_overall_is_rounded_average [OF rel0 refl] by simp
  ultimately show ?thesis by simp
qed

subsection \<open>cancelUpload on a finished record\<close>

lemma cancelUpload_items:
  "items (cancelUpload i st) =
     map (\<lambda>item. if item_id item = i
                  then item\<lparr>status := Error, error := Some ''Cancelled''\<rparr> else item) (items st)"
  by (simp add: cancelUpload_def controller_abort_def split: option.splits)

lemma complete_a_items:
  "items complete_a =
     [newItem (''a'', example_file ''a.png'')
        \<lparr>status := Complete, progress := 100,
         url := Some (publicUrl destination), key := Some (p_key destination)\<rparr>]"
  by (simp add: example_defs op_defs)

text \<open>
  Claim C3, as stated, fails: a record whose transfer completed (its controller is gone
  from \<^verbatim>\<open>abortControllers\<close>) does not stay complete under \<^verbatim>\<open>cancelUpload\<close>.
\<close>

theorem cancel_after_complete_counterexample:
  "map status (items complete_a) = [Complete]
   \<and> abortControllers complete_a ''a'' = None
   \<and> map status (items (cancelUpload ''a'' complete_a)) = [Error]"
  by (simp add: cancelUpload_items complete_a_items) (simp add: example_defs op_defs)

text \<open>
  Claim C3, amended.  \<^verbatim>\<open>cancelUpload(id)\<close> on a record that is already complete
  overrides the outcome: the record's status becomes \<open>Error\<close> with the error
  \<open>''Cancelled''\<close>; its \<open>url\<close> (the public URL), its \<open>key\<close> (the destination key),
  its progress and its id stay as they were, and no record is added or removed.
\<close>

theorem cancelUpload_overrides_complete:
  assumes "k < length (items st)"
    and "item_id (items st ! k) = i"
    and "status (items st ! k) = Complete"
  shows "length (items (cancelUpload i st)) = length (items st)
    \<and> status (items (cancelUpload i st) ! k) = Error
    \<and> error (items (cancelUpload i st) ! k) = Some ''Cancelled''
    \<and> url (items (cancelUpload i st) ! k) = url (items st ! k)
    \<and> key (items (cancelUpload i st) ! k) = key (items st ! k)
    \<and> progress (items (cancelUpload i st) ! k) = progress (items st ! k)
    \<and> item_id (items (cancelUpload i st) ! k) = i"
  using assms by (simp add: cancelUpload_items)

theorem cancelUpload_overrides_complete_witness:
  "status (items complete_a ! 0) = Complete
   \<and> status (items (cancelUpload ''a'' complete_a) ! 0) = Error
   \<and> error (items (cancelUpload ''a'' complete_a) ! 0) = Some ''Cancelled''
   \<and> url (items (cancelUpload ''a'' complete_a) ! 0) = Some ''https://cdn.example/uploads/a.png''
   \<and> key (items (cancelUpload ''a'' complete_a) ! 0) = Some ''uploads/a.png''"
proof -
  have k: "0 < length (items complete_a)"
    and i: "item_id (items complete_a ! 0) = ''a''"
    and s: "status (items complete_a ! 0) = Complete"
    and u: "url (items complete_a ! 0) = Some ''https://cdn.example/uploads/a.png''"
      "key (items complete_a ! 0) = Some ''uploads/a.png''"
    by (simp_all add: complete_a_items newItem_def destination_def)
  from cancelUpload_overrides_complete [OF k i s] s u show ?thesis by simp
qed

subsection \<open>How a failed transfer is reported\<close>

lemma resolving_a_transfer: "the_transfer 0 resolving_a = Some transfer_a"
  by (simp add: example_defs op_defs transfer_a_def)

lemma resolving_a_fields:
  "items resolving_a = [newItem (''a'', example_file ''a.png'')\<lparr>status := Uploading\<rparr>]"
  "calls resolving_a = []"
  "uploadQueueRef resolving_a = {''a''}"
  by (simp_all add: example_defs op_defs)

lemma sending_a_transfer:
  "the_transfer 0 sending_a = Some (transfer_a\<lparr>t_phase := Sending destination\<rparr>)"
  by (simp add: example_defs op_defs transfer_a_def)

lemma sending_a_fields:
  "items sending_a = [newItem (''a'', example_file ''a.png'')\<lparr>status := Uploading\<rparr>]"
  "calls sending_a = []"
  by (simp_all add: example_defs op_defs)

lemma aborted_a_transfer:
  "the_transfer 0 aborted_a =
     Some (transfer_a\<lparr>t_phase := Aborted, t_signal_aborted := True\<rparr>)"
  by (simp add: aborted_a_def example_defs op_defs transfer_a_def)

lemma aborted_a_fields:
  "items aborted_a =
     [newItem (''a'', example_file ''a.png'')\<lparr>status := Error, error := Some ''Cancelled''\<rparr>]"
  "calls aborted_a = []"
  by (simp_all add: aborted_a_def example_defs op_defs)

lemma uploadFile_finally_fields [simp]:
  "items (uploadFile_finally t st) = items st"
  "calls (uploadFile_finally t st) = calls st"
  by (simp_all add: uploadFile_finally_def)

lemma uploadFile_catch_cancelled:
  "message_of e = Some ''Upload cancelled'' \<Longrightarrow>
     calls (uploadFile_catch e t st) = calls st
     \<and> items (uploadFile_catch e t st) =
         items (updateItem (item_id (t_item t))
                  (\<lambda>i. i\<lparr>status := Error, error := Some ''Cancelled''\<rparr>) st)"
  by (cases e) (simp_all add: uploadFile_catch_def updateItem_def Let_def)

text \<open>
  A caught \<^verbatim>\<open>null\<close> or \<^verbatim>\<open>undefined\<close> leaves the store and the callbacks alone;
  the marker and the controller are released by \<^verbatim>\<open>finally\<close>.
\<close>

lemma uploadFile_catch_Nullish:
  "calls (uploadFile_catch Nullish t st) = calls st
   \<and> items (uploadFile_catch Nullish t st) = items st
   \<and> item_id (t_item t) \<notin> uploadQueueRef (uploadFile_catch Nullish t st)
   \<and> abortControllers (uploadFile_catch Nullish t st) (item_id (t_item t)) = None"
  by (simp add: uploadFile_catch_def uploadFile_finally_def Let_def)

lemma uploadFile_catch_Error:
  "m \<noteq> ''Upload cancelled'' \<Longrightarrow>
     calls (uploadFile_catch (ErrorObj m) t st) = calls st @ [OnError (ErrorObj m) (t_item t)]
     \<and> items (uploadFile_catch (ErrorObj m) t st) =
         items (updateItem (item_id (t_item t)) (\<lambda>i. i\<lparr>status := Error, error := Some m\<rparr>) st)"
  by (simp add: uploadFile_catch_def updateItem_def Let_def)

lemma uploadFile_catch_NonError:
  "mo \<noteq> Some ''Upload cancelled'' \<Longrightarrow>
     calls (uploadFile_catch (NonError mo) t st) =
       calls st @ [OnError (ErrorObj ''Upload failed'') (t_item t)]
     \<and> items (uploadFile_catch (NonError mo) t st) =
         items (updateItem (item_id (t_item t))
                  (\<lambda>i. i\<lparr>status := Error, error := Some ''Upload failed''\<rparr>) st)"
  by (simp add: uploadFile_catch_def updateItem_def Let_def)

text \<open>
  Claim C6, as stated, fails: a resolution failure need not reach \<^verbatim>\<open>onError\<close>.  When the
  resolver answers with a status that is not \<^verbatim>\<open>ok\<close> and the body
  \<^verbatim>\<open>{"error": "Upload cancelled"}\<close>, \<^verbatim>\<open>getPresignedUrl\<close> throws an error with that
  message, no callback is called, and the record's error is \<open>''Cancelled''\<close>, not the
  failure's message.
\<close>

theorem resolver_failure_not_reported_counterexample:
  "getPresignedUrl (ResponseNotOk cancelled_body) = Inl (ErrorObj ''Upload cancelled'')
   \<and> map t_phase (transfers resolving_a) = [Resolving]
   \<and> calls (presigned_settled 0 (ResponseNotOk cancelled_body) resolving_a) = []
   \<and> map error (items (presigned_settled 0 (ResponseNotOk cancelled_body) resolving_a)) =
       [Some ''Cancelled'']"
  by (simp add: example_defs op_defs cancelled_body_def Let_def)

text \<open>
  Claim C6, amended.  For a running transfer \<open>t\<close>: a resolution failure or a transport
  failure whose message is not exactly \<open>''Upload cancelled''\<close> calls \<^verbatim>\<open>onError\<close> once,
  with the failure and the item, and sets the record's status to \<open>Error\<close> and its error to
  the failure's message.  The failures are the errors the source throws and rejects with:
  the \<^verbatim>\<open>Error\<close> of \<^verbatim>\<open>getPresignedUrl\<close> or of its \<^verbatim>\<open>fetch\<close>, and the errors of the
  \<^verbatim>\<open>load\<close> and \<^verbatim>\<open>error\<close> listeners, whose messages never are
  \<open>''Upload cancelled''\<close>.  A failure whose message is exactly \<open>''Upload cancelled''\<close>,
  which is what the abort of the request rejects with, sets the record's error to
  \<open>''Cancelled''\<close> and calls no callback.
\<close>

theorem failure_reported_unless_upload_cancelled:
  assumes t: "the_transfer c st = Some t"
  shows
   "(t_phase t = Resolving \<and> getPresignedUrl r = Inl (ErrorObj m) \<and> m \<noteq> ''Upload cancelled'' \<longrightarrow>
       calls (presigned_settled c r st) = calls st @ [OnError (ErrorObj m) (t_item t)]
       \<and> items (presigned_settled c r st) =
           items (updateItem (item_id (t_item t)) (\<lambda>i. i\<lparr>status := Error, error := Some m\<rparr>) st))
    \<and> (t_phase t = Sending p \<and> \<not> (200 \<le> hs \<and> hs < 300) \<longrightarrow>
       calls (xhr_load c hs st) =
         calls st @ [OnError (ErrorObj (''Upload failed with status '' @ string_of_nat hs)) (t_item t)]
       \<and> items (xhr_load c hs st) =
           items (updateItem (item_id (t_item t))
                    (\<lambda>i. i\<lparr>status := Error,
                           error := Some (''Upload failed with status '' @ string_of_nat hs)\<rparr>) st))
    \<and> (t_phase t = Sending p \<longrightarrow>
       calls (xhr_error c st) = calls st @ [OnError (ErrorObj ''Upload failed'') (t_item t)]
       \<and> items (xhr_error c st) =
           items (updateItem (item_id (t_item t))
                    (\<lambda>i. i\<lparr>status := Error, error := Some ''Upload failed''\<rparr>) st))
    \<and> (t_phase t = Aborted \<longrightarrow>
       calls (abort_rejected c st) = calls st
       \<and> items (abort_rejected c st) =
           items (updateItem (item_id (t_item t))
                    (\<lambda>i. i\<lparr>status := Error, error := Some ''Cancelled''\<rparr>) st))
    \<and> (t_phase t = Resolving \<and> getPresignedUrl r = Inl e
         \<and> message_of e = Some ''Upload cancelled'' \<longrightarrow>
       calls (presigned_settled c r st) = calls st
       \<and> items (presigned_settled c r st) =
           items (updateItem (item_id (t_item t))
                    (\<lambda>i. i\<lparr>status := Error, error := Some ''Cancelled''\<rparr>) st))"
proof -
  have status_msg: "''Upload failed with status '' @ s \<noteq> ''Upload cancelled''" for s
    by simp
  show ?thesis
    using t uploadFile_catch_Error [of m t st]
      uploadFile_catch_Error [OF status_msg, of "string_of_nat hs" t st]
      uploadFile_catch_Error [of "''Upload failed''" t st]
      uploadFile_catch_cancelled [of "ErrorObj ''Upload cancelled''" t st]
      uploadFile_catch_cancelled [of e t st]
    by (auto simp: presigned_settled_def xhr_load_def xhr_error_def abort_rejected_def)
qed

text \<open>
  One run of each case: the resolver refuses with a message, \<^verbatim>\<open>fetch\<close> rejects with
  an error, the request loads with status 500, the request fails, the request is aborted,
  and the resolver refuses with the message \<open>''Upload cancelled''\<close>.
\<close>

theorem failure_reported_unless_upload_cancelled_witness:
  "calls (presigned_settled 0 (ResponseNotOk too_large_body) resolving_a) =
       [OnError (ErrorObj ''File too large'') (newItem (''a'', example_file ''a.png''))]
   \<and> map error (items (presigned_settled 0 (ResponseNotOk too_large_body) resolving_a)) =
       [Some ''File too large'']
   \<and> calls (presigned_settled 0 (FetchRejected (ErrorObj ''Failed to fetch'')) resolving_a) =
       [OnError (ErrorObj ''Failed to fetch'') (newItem (''a'', example_file ''a.png''))]
   \<and> map error (items (presigned_settled 0 (FetchRejected (ErrorObj ''Failed to fetch''))
                          resolving_a)) = [Some ''Failed to fetch'']
   \<and> calls (xhr_load 0 500 sending_a) =
       [OnError (ErrorObj ''Upload failed with status 500'')
          (newItem (''a'', example_file ''a.png''))]
   \<and> map error (items (xhr_load 0 500 sending_a)) = [Some ''Upload failed with status 500'']
   \<and> calls (xhr_error 0 sending_a) =
       [OnError (ErrorObj ''Upload failed'') (newItem (''a'', example_file ''a.png''))]
   \<and> map error (items (xhr_error 0 sending_a)) = [Some ''Upload failed'']
   \<and> calls (abort_rejected 0 aborted_a) = []
   \<and> map error (items (abort_rejected 0 aborted_a)) = [Some ''Cancelled'']
   \<and> calls (presigned_settled 0 (ResponseNotOk cancelled_body) resolving_a) = []
   \<and> map error (items (presigned_settled 0 (ResponseNotOk cancelled_body) resolving_a)) =
       [Some ''Cancelled'']"
proof -
  have r: "getPresignedUrl (ResponseNotOk too_large_body) = Inl (ErrorObj ''File too large'')"
    "getPresignedUrl (FetchRejected (ErrorObj ''Failed to fetch'')) =
       Inl (ErrorObj ''Failed to fetch'')"
    "getPresignedUrl (ResponseNotOk cancelled_body) = Inl (ErrorObj ''Upload cancelled'')"
    by (simp_all add: getPresignedUrl_def too_large_body_def cancelled_body_def or_else_def)
  have t: "t_phase transfer_a = Resolving"
    "t_item transfer_a = newItem (''a'', example_file ''a.png'')"
    by (simp_all add: transfer_a_def)
  have n: "string_of_nat 500 = ''500''"
    by (simp add: digit_char_def)
  note resolving =
    failure_reported_unless_upload_cancelled [OF resolving_a_transfer,
      where r = "ResponseNotOk too_large_body" and m = "''File too large''" and hs = 500
        and e = "ErrorObj ''Upload cancelled''" and p = destination]
    failure_reported_unless_upload_cancelled [OF resolving_a_transfer,
      where r = "FetchRejected (ErrorObj ''Failed to fetch'')" and m = "''Failed to fetch''"
        and hs = 500 and e = "ErrorObj ''Upload cancelled''" and p = destination]
    failure_reported_unless_upload_cancelled [OF resolving_a_transfer,
      where r = "ResponseNotOk cancelled_body" and m = "''File too large''" and hs = 500
        and e = "ErrorObj ''Upload cancelled''" and p = destination]
  note sending =
    failure_reported_unless_upload_cancelled [OF sending_a_transfer,
      where r = "ResponseNotOk too_large_body" and m = "''File too large''" and hs = 500
        and e = "ErrorObj ''Upload cancelled''" and p = destination]
  note aborted =
    failure_reported_unless_upload_cancelled [OF aborted_a_transfer,
      where r = "ResponseNotOk too_large_body" and m = "''File too large''" and hs = 500
        and e = "ErrorObj ''Upload cancelled''" and p = destination]
  from resolving r t have
    "calls (presigned_settled 0 (ResponseNotOk too_large_body) resolving_a) =
       calls resolving_a @ [OnError (ErrorObj ''File too large'') (t_item transfer_a)]"
    "items (presigned_settled 0 (ResponseNotOk too_large_body) resolving_a) =
       items (updateItem ''a'' (\<lambda>i. i\<lparr>status := Error, error := Some ''File too large''\<rparr>) resolving_a)"
    "calls (presigned_settled 0 (FetchRejected (ErrorObj ''Failed to fetch'')) resolving_a) =
       calls resolving_a @ [OnError (ErrorObj ''Failed to fetch'') (t_item transfer_a)]"
    "items (presigned_settled 0 (FetchRejected (ErrorObj ''Failed to fetch'')) resolving_a) =
       items (updateItem ''a'' (\<lambda>i. i\<lparr>status := Error, error := Some ''Failed to fetch''\<rparr>) resolving_a)"
    "calls (presigned_settled 0 (ResponseNotOk cancelled_body) resolving_a) = calls resolving_a"
    "items (presigned_settled 0 (ResponseNotOk cancelled_body) resolving_a) =
       items (updateItem ''a'' (\<lambda>i. i\<lparr>status := Error, error := Some ''Cancelled''\<rparr>) resolving_a)"
    by (simp_all add: newItem_def)
  moreover from sending t n have
    "calls (xhr_load 0 500 sending_a) =
       calls sending_a @ [OnError (ErrorObj ''Upload failed with status 500'') (t_item transfer_a)]"
    "items (xhr_load 0 500 sending_a) =
       items (updateItem ''a''
                (\<lambda>i. i\<lparr>status := Error, error := Some ''Upload failed with status 500''\<rparr>) sending_a)"
    "calls (xhr_error 0 sending_a) =
       calls sending_a @ [OnError (ErrorObj ''Upload failed'') (t_item transfer_a)]"
    "items (xhr_error 0 sending_a) =
       items (updateItem ''a'' (\<lambda>i. i\<lparr>status := Error, error := Some ''Upload failed''\<rparr>) sending_a)"
    by (simp_all add: newItem_def)
  moreover from aborted t have
    "calls (abort_rejected 0 aborted_a) = calls aborted_a"
    "items (abort_rejected 0 aborted_a) =
       items (updateItem ''a'' (\<lambda>i. i\<lparr>status := Error, error := Some ''Cancelled''\<rparr>) aborted_a)"
    by (simp_all add: newItem_def)
  ultimately show ?thesis
    using t
    by (simp add: resolving_a_fields sending_a_fields aborted_a_fields updateItem_def newItem_def)
qed

subsection \<open>Classification by message\<close>

text \<open>
  Claim C10.  The \<^verbatim>\<open>catch\<close> block classifies a failure by its message alone: for every
  caught value whose message is exactly \<open>''Upload cancelled''\<close> the record's error becomes
  \<open>''Cancelled''\<close> and no callback is called.  In particular this happens when the
  resolver answers a pending request with a status that is not \<^verbatim>\<open>ok\<close> and a body whose
  \<^verbatim>\<open>error\<close> is that string, whether or not anybody asked for a cancellation.
\<close>

theorem upload_cancelled_message_is_cancellation:
  "(message_of e = Some ''Upload cancelled'' \<longrightarrow>
      calls (uploadFile_catch e t st) = calls st
      \<and> items (uploadFile_catch e t st) =
          items (updateItem (item_id (t_item t))
                   (\<lambda>i. i\<lparr>status := Error, error := Some ''Cancelled''\<rparr>) st))
   \<and> (the_transfer c st = Some t \<and> t_phase t = Resolving
        \<and> body_error b = Some ''Upload cancelled'' \<longrightarrow>
      getPresignedUrl (ResponseNotOk b) = Inl (ErrorObj ''Upload cancelled'')
      \<and> calls (presigned_settled c (ResponseNotOk b) st) = calls st
      \<and> items (presigned_settled c (ResponseNotOk b) st) =
          items (updateItem (item_id (t_item t))
                   (\<lambda>i. i\<lparr>status := Error, error := Some ''Cancelled''\<rparr>) st))"
proof -
  have r: "getPresignedUrl (ResponseNotOk b) = Inl (ErrorObj ''Upload cancelled'')"
    if "body_error b = Some ''Upload cancelled''"
    using that by (simp add: getPresignedUrl_def or_else_def)
  show ?thesis
    using uploadFile_catch_cancelled [of e t st]
      uploadFile_catch_cancelled [of "ErrorObj ''Upload cancelled''" t st] r
    by (auto simp: presigned_settled_def)
qed

theorem upload_cancelled_message_is_cancellation_witness:
  "\<not> t_signal_aborted transfer_a
   \<and> the_transfer 0 resolving_a = Some transfer_a
   \<and> calls (uploadFile_catch (NonError (Some ''Upload cancelled'')) transfer_a resolving_a) = []
   \<and> map error (items (uploadFile_catch (NonError (Some ''Upload cancelled''))
                          transfer_a resolving_a)) = [Some ''Cancelled'']
   \<and> calls (presigned_settled 0 (ResponseNotOk cancelled_body) resolving_a) = []
   \<and> map status (items (presigned_settled 0 (ResponseNotOk cancelled_body) resolving_a)) = [Error]
   \<and> map error (items (presigned_settled 0 (ResponseNotOk cancelled_body) resolving_a)) =
       [Some ''Cancelled'']"
proof -
  have ph: "t_phase transfer_a = Resolving" "\<not> t_signal_aborted transfer_a"
    and it: "t_item transfer_a = newItem (''a'', example_file ''a.png'')"
    by (simp_all add: transfer_a_def)
  have b: "body_error cancelled_body = Some ''Upload cancelled''"
    by (simp add: cancelled_body_def)
  from upload_cancelled_message_is_cancellation
         [of "ErrorObj ''Upload cancelled''" transfer_a resolving_a 0 cancelled_body]
       resolving_a_transfer ph b
  have "calls (presigned_settled 0 (ResponseNotOk cancelled_body) resolving_a) = calls resolving_a"
    and "items (presigned_settled 0 (ResponseNotOk cancelled_body) resolving_a) =
          items (updateItem (item_id (t_item transfer_a))
                   (\<lambda>i. i\<lparr>status := Error, error := Some ''Cancelled''\<rparr>) resolving_a)"
    by simp_all
  moreover from upload_cancelled_message_is_cancellation
         [of "NonError (Some ''Upload cancelled'')" transfer_a resolving_a 0 cancelled_body]
  have "calls (uploadFile_catch (NonError (Some ''Upload cancelled'')) transfer_a resolving_a) =
          calls resolving_a"
    and "items (uploadFile_catch (NonError (Some ''Upload cancelled'')) transfer_a resolving_a) =
          items (updateItem (item_id (t_item transfer_a))
                   (\<lambda>i. i\<lparr>status := Error, error := Some ''Cancelled''\<rparr>) resolving_a)"
    by simp_all
  ultimately show ?thesis
    using ph it resolving_a_transfer
    by (simp add: resolving_a_fields updateItem_def newItem_def)
qed

subsection \<open>Admission through a render's processQueue\<close>

lemmas more_defs = cancelled_while_resolving_def loaded_after_cancel_def admitted_once_def
  admitted_twice_def

text \<open>
  Claim C2 says that the admission pass which \<^verbatim>\<open>addFiles\<close> defers with
  \<^verbatim>\<open>setTimeout\<close> sees the records just appended and starts
  \<open>min maxConcurrent K\<close> of them.  The pass is the \<^verbatim>\<open>processQueue\<close> of the render
  that called \<^verbatim>\<open>addFiles\<close>, and it reads that render's \<^verbatim>\<open>items\<close>.  Here two files
  are added to the empty provider with \<^verbatim>\<open>autoUpload\<close> and the limit 1; after the timer
  has fired both records are still queued and no transfer was started.
\<close>

theorem addFiles_timer_admits_nothing:
  "autoUpload one_at_a_time
   \<and> map status (items two_added) = [Queued, Queued]
   \<and> transfers two_added = []
   \<and> uploadQueueRef two_added = {}
   \<and> timers two_added = []"
  by (simp add: example_defs op_defs)

text \<open>
  Claim C1 says that the number of uploading records never exceeds \<^verbatim>\<open>maxConcurrent\<close>.
  With the limit 1: two files are added, and from the next render the application calls
  \<^verbatim>\<open>uploadFiles\<close> with a third file.  \<^verbatim>\<open>uploadFiles\<close> runs \<^verbatim>\<open>processQueue\<close> at
  once and the timer of its \<^verbatim>\<open>addFiles\<close> runs the same \<^verbatim>\<open>processQueue\<close> again.
  Both read the same \<^verbatim>\<open>items\<close>, in which nothing is uploading; the first admits
  \<open>a\<close>, the second skips the marked \<open>a\<close> and admits \<open>b\<close>.  Two records are uploading.
\<close>

theorem limit_exceeded_after_uploadFiles:
  "maxConcurrent one_at_a_time = 1
   \<and> map status (items two_added) = [Queued, Queued]
   \<and> map status (items third_uploaded) = [Uploading, Uploading, Queued]
   \<and> uploadingCount (items third_uploaded) = 2"
  by (simp add: example_defs op_defs uploadingCount_def)

text \<open>
  Claim C5 says that a second \<^verbatim>\<open>processQueue\<close> in a row admits nothing more.  Called
  twice in a row, the \<^verbatim>\<open>processQueue\<close> of a render that shows two queued items admits,
  with the limit 1, the first item in the first call and the second item in the second
  call.
\<close>

theorem second_processQueue_admits_more:
  "map status (items two_queued) = [Queued, Queued]
   \<and> map (\<lambda>t. item_id (t_item t)) (transfers admitted_once) = [''a'']
   \<and> map (\<lambda>t. item_id (t_item t)) (transfers admitted_twice) = [''a'', ''b'']
   \<and> map status (items admitted_twice) = [Uploading, Uploading]"
  by (simp add: example_defs op_defs more_defs)

subsection \<open>cancelUpload on an uploading record\<close>

text \<open>
  Claim C4 says that \<^verbatim>\<open>cancelUpload\<close> on an uploading record aborts the transfer in
  flight and releases its marker.  A record is uploading from the start of
  \<^verbatim>\<open>uploadFile\<close>, but the signal's \<^verbatim>\<open>abort\<close> listener is registered only once the
  resolver has answered.  Here the record is cancelled while the resolver request is
  pending: it is shown as \<open>Error\<close>, but the transfer keeps running and the marker and the
  controller stay; when the resolver has answered and the request has loaded, the record is
  \<open>Complete\<close> and \<^verbatim>\<open>onUploadComplete\<close> was called.
\<close>

theorem cancel_while_resolving_does_not_abort:
  "map status (items resolving_a) = [Uploading]
   \<and> abortControllers resolving_a ''a'' = Some 0
   \<and> map status (items cancelled_while_resolving) = [Error]
   \<and> map t_phase (transfers cancelled_while_resolving) = [Resolving]
   \<and> uploadQueueRef cancelled_while_resolving = {''a''}
   \<and> abortControllers cancelled_while_resolving ''a'' = Some 0
   \<and> map status (items loaded_after_cancel) = [Complete]
   \<and> map error (items loaded_after_cancel) = [Some ''Cancelled'']
   \<and> calls loaded_after_cancel =
       [OnUploadComplete
          (newItem (''a'', example_file ''a.png'')
             \<lparr>status := Complete, progress := 100,
              url := Some (publicUrl destination), key := Some (p_key destination)\<rparr>)]"
  by (simp add: example_defs op_defs more_defs Let_def)

subsection \<open>Cancelling while the request is being sent\<close>

lemma find_map_same_ctl:
  "(\<And>t. t_ctl (f t) = t_ctl t) \<Longrightarrow>
     find (\<lambda>t. t_ctl t = c) (map f ts) = map_option f (find (\<lambda>t. t_ctl t = c) ts)"
  by (induction ts) simp_all

lemma find_filter_other_ctl:
  "find (\<lambda>t. t_ctl t = c) (filter (\<lambda>u. t_ctl u \<noteq> c) ts) = None"
  by (induction ts) simp_all

lemma cancelUpload_refs:
  "abortControllers (cancelUpload i st) = abortControllers st"
  "uploadQueueRef (cancelUpload i st) = uploadQueueRef st"
  "calls (cancelUpload i st) = calls st"
  "timers (cancelUpload i st) = timers st"
  by (simp_all add: cancelUpload_def controller_abort_def split: option.splits)

lemma cancelUpload_sending_transfer:
  assumes "abortControllers st i = Some c"
    and "the_transfer c st = Some t"
    and "t_phase t = Sending p"
    and "\<not> t_signal_aborted t"
  shows "the_transfer c (cancelUpload i st) =
           Some (t\<lparr>t_phase := Aborted, t_signal_aborted := True\<rparr>)"
proof -
  let ?f = "\<lambda>t. if t_ctl t = c \<and> \<not> t_signal_aborted t
                   then (case t_phase t of
                           Sending presigned \<Rightarrow> t\<lparr>t_phase := Aborted, t_signal_aborted := True\<rparr>
                         | _ \<Rightarrow> t\<lparr>t_signal_aborted := True\<rparr>)
                   else t"
  have ctl: "t_ctl (?f u) = t_ctl u" for u
    by (simp split: phase.splits)
  have "the_transfer c (cancelUpload i st) = map_option ?f (the_transfer c st)"
    using assms(1) find_map_same_ctl [of ?f c "transfers st", OF ctl]
    by (simp add: cancelUpload_def controller_abort_def the_transfer_def)
  moreover from assms(2) have "t_ctl t = c"
    by (auto simp: the_transfer_def find_Some_iff)
  ultimately show ?thesis
    using assms by simp
qed

text \<open>
  Once the request is being sent, \<^verbatim>\<open>cancelUpload\<close> does abort it: the promise is
  rejected with \<open>''Upload cancelled''\<close>, and when the \<^verbatim>\<open>catch\<close> and
  \<^verbatim>\<open>finally\<close> blocks have run the marker, the controller and the invocation are gone,
  no callback was called, and the record is as \<^verbatim>\<open>cancelUpload\<close> left it.
\<close>

lemma cancelUpload_aborts_sending:
  assumes "abortControllers st i = Some c"
    and "the_transfer c st = Some t"
    and "t_phase t = Sending p"
    and "\<not> t_signal_aborted t"
    and "item_id (t_item t) = i"
  shows "items (abort_rejected c (cancelUpload i st)) = items (cancelUpload i st)
    \<and> calls (abort_rejected c (cancelUpload i st)) = calls st
    \<and> i \<notin> uploadQueueRef (abort_rejected c (cancelUpload i st))
    \<and> abortControllers (abort_rejected c (cancelUpload i st)) i = None
    \<and> the_transfer c (abort_rejected c (cancelUpload i st)) = None"
proof -
  let ?t = "t\<lparr>t_phase := Aborted, t_signal_aborted := True\<rparr>"
  from assms(2) have c: "t_ctl t = c"
    by (auto simp: the_transfer_def find_Some_iff)
  have step: "abort_rejected c (cancelUpload i st) =
      uploadFile_catch (ErrorObj ''Upload cancelled'') ?t (cancelUpload i st)"
    using cancelUpload_sending_transfer [OF assms(1-4)] by (simp add: abort_rejected_def)
  have "items (uploadFile_catch (ErrorObj ''Upload cancelled'') ?t (cancelUpload i st)) =
        items (cancelUpload i st)"
    using assms(5)
    by (simp add: uploadFile_catch_def uploadFile_finally_def updateItem_def cancelUpload_items)
  moreover have "calls (uploadFile_catch (ErrorObj ''Upload cancelled'') ?t (cancelUpload i st)) = calls st"
    by (simp add: uploadFile_catch_def uploadFile_finally_def updateItem_def cancelUpload_refs)
  moreover have "i \<notin> uploadQueueRef (uploadFile_catch (ErrorObj ''Upload cancelled'') ?t (cancelUpload i st))"
    "abortControllers (uploadFile_catch (ErrorObj ''Upload cancelled'') ?t (cancelUpload i st)) i = None"
    using assms(5)
    by (simp_all add: uploadFile_catch_def uploadFile_finally_def updateItem_def)
  moreover have "the_transfer c (uploadFile_catch (ErrorObj ''Upload cancelled'') ?t (cancelUpload i st)) = None"
    using c find_filter_other_ctl [of c]
    by (simp add: uploadFile_catch_def uploadFile_finally_def updateItem_def the_transfer_def)
  ultimately show ?thesis
    by (simp add: step)
qed

subsection \<open>What processQueue guarantees\<close>

lemma processQueue_fold:
  "processQueue maxConc snap st = fold admit (itemsToUpload maxConc snap st) st"
proof -
  have "admit = (\<lambda>item s.
      uploadFile item (s\<lparr>uploadQueueRef := insert (item_id item) (uploadQueueRef s)\<rparr>))"
    by (intro ext) (simp add: admit_def)
  then show ?thesis
    by (simp add: processQueue_def itemsToUpload_def Let_def)
qed

lemma admit_fields:
  "uploadQueueRef (admit x st) = insert (item_id x) (uploadQueueRef st)"
  "items (admit x st) =
     map (\<lambda>item. if item_id item = item_id x
                  then item\<lparr>status := Uploading, progress := 0\<rparr> else item) (items st)"
  "length (transfers (admit x st)) = Suc (length (transfers st))"
  "calls (admit x st) = calls st"
  "timers (admit x st) = timers st"
  by (simp_all add: admit_def uploadFile_def updateItem_def Let_def)

lemma fold_admit_ref:
  "uploadQueueRef (fold admit xs st) = uploadQueueRef st \<union> item_id ` set xs"
  by (induction xs arbitrary: st) (simp_all add: admit_fields)

lemma fold_admit_transfers:
  "length (transfers (fold admit xs st)) = length (transfers st) + length xs"
  by (induction xs arbitrary: st) (simp_all add: admit_fields)

lemma fold_admit_items:
  "items (fold admit xs st) =
     map (\<lambda>item. if item_id item \<in> item_id ` set xs
                  then item\<lparr>status := Uploading, progress := 0\<rparr> else item) (items st)"
proof (induction xs arbitrary: st)
  case Nil
  then show ?case by simp
next
  case (Cons x xs)
  have "(\<lambda>item. if item_id item \<in> item_id ` set xs
                  then item\<lparr>status := Uploading, progress := 0\<rparr> else item) \<circ>
        (\<lambda>item. if item_id item = item_id x
                  then item\<lparr>status := Uploading, progress := 0\<rparr> else item) =
        (\<lambda>item. if item_id item \<in> item_id ` set (x # xs)
                  then item\<lparr>status := Uploading, progress := 0\<rparr> else item)"
    by (intro ext) simp
  with Cons.IH [of "admit x st"] show ?case
    by (simp add: admit_fields)
qed


lemma itemsToUpload_eligible:
  "x \<in> set (itemsToUpload m snap st) \<Longrightarrow>
     x \<in> set snap \<and> status x = Queued \<and> item_id x \<notin> uploadQueueRef st"
  by (auto simp: itemsToUpload_def slice0_def dest: in_set_takeD split: if_splits)

text \<open>
  The marker does what it is for: whatever list a later \<^verbatim>\<open>processQueue\<close> reads, it
  selects no record that an earlier one admitted, as long as the marker is set.
\<close>

lemma processQueue_no_double_admission:
  "item_id ` set (itemsToUpload m' snap' (processQueue m snap st)) \<inter>
   item_id ` set (itemsToUpload m snap st) = {}"
proof -
  have "item_id y \<notin> item_id ` set (itemsToUpload m snap st)"
    if "y \<in> set (itemsToUpload m' snap' (processQueue m snap st))" for y
    using itemsToUpload_eligible [OF that]
    by (simp add: processQueue_fold fold_admit_ref)
  then show ?thesis by blast
qed

text \<open>
  The remaining lemmas are about a \<^verbatim>\<open>processQueue\<close> that reads the current store,
  whose ids are distinct.
\<close>

lemma inj_ids_member:
  assumes "distinct (map f xs)" and "set ys \<subseteq> set xs" and "x \<in> set xs" and "f x \<in> f ` set ys"
  shows "x \<in> set ys"
proof -
  from assms(4) obtain y where y: "y \<in> set ys" "f x = f y" by blast
  from assms(1) have "inj_on f (set xs)" by (simp add: distinct_map)
  with y assms(2,3) have "x = y" by (auto dest: inj_onD)
  with y show ?thesis by simp
qed

lemma filter_not_in_prefix:
  "f ` set as \<inter> f ` set bs = {} \<Longrightarrow> filter (\<lambda>x. f x \<notin> f ` set as) (as @ bs) = bs"
  by (auto simp: filter_id_conv)

lemma filter_not_in_take:
  assumes "distinct (map f xs)"
  shows "filter (\<lambda>x. f x \<notin> f ` set (take n xs)) xs = drop n xs"
proof -
  have "distinct (map f (take n xs) @ map f (drop n xs))"
    using assms by (simp flip: map_append)
  then have "f ` set (take n xs) \<inter> f ` set (drop n xs) = {}"
    by simp
  from filter_not_in_prefix [OF this] show ?thesis by simp
qed

lemma length_filter_ids:
  assumes "distinct (map f xs)" and "set ys \<subseteq> set xs" and "distinct ys"
  shows "length (filter (\<lambda>x. f x \<in> f ` set ys) xs) = length ys"
proof -
  have "filter (\<lambda>x. f x \<in> f ` set ys) xs = filter (\<lambda>x. x \<in> set ys) xs"
    using inj_ids_member [OF assms(1,2)] by (intro filter_cong) auto
  moreover from assms(1) have "distinct xs" by (simp add: distinct_map)
  then have "length (filter (\<lambda>x. x \<in> set ys) xs) = card ({x. x \<in> set ys} \<inter> set xs)"
    by (rule distinct_length_filter)
  moreover from assms(2) have "{x. x \<in> set ys} \<inter> set xs = set ys" by auto
  ultimately show ?thesis
    using assms(3) by (simp add: distinct_card)
qed

lemma length_filter_disjoint_or:
  "(\<And>x. x \<in> set xs \<Longrightarrow> P x \<Longrightarrow> \<not> Q x) \<Longrightarrow>
     length (filter (\<lambda>x. P x \<or> Q x) xs) = length (filter P xs) + length (filter Q xs)"
  by (induction xs) auto


lemma itemsToUpload_distinct:
  "distinct (map item_id snap) \<Longrightarrow> distinct (itemsToUpload m snap st)"
  by (simp add: itemsToUpload_def slice0_def distinct_map)

lemma itemsToUpload_subset: "set (itemsToUpload m snap st) \<subseteq> set snap"
  using itemsToUpload_eligible by blast

lemma uploadingCount_after_processQueue:
  assumes d: "distinct (map item_id (items st))"
  shows "uploadingCount (items (processQueue m (items st) st)) =
           uploadingCount (items st) + length (itemsToUpload m (items st) st)"
proof -
  let ?X = "itemsToUpload m (items st) st"
  let ?A = "item_id ` set ?X"
  have disj: "status item \<noteq> Uploading"
    if "item \<in> set (items st)" and "item_id item \<in> ?A" for item
  proof -
    from inj_ids_member [OF d itemsToUpload_subset that] have "item \<in> set ?X" .
    from itemsToUpload_eligible [OF this] show ?thesis by simp
  qed
  let ?F = "\<lambda>item. if item_id item \<in> ?A
                     then item\<lparr>status := Uploading, progress := 0\<rparr> else item"
  have c1: "uploadingCount (items (processQueue m (items st) st)) =
        length (filter (\<lambda>item. status (?F item) = Uploading) (items st))"
    unfolding processQueue_fold fold_admit_items uploadingCount_def filter_map comp_def length_map ..
  have c2: "filter (\<lambda>item. status (?F item) = Uploading) (items st) =
        filter (\<lambda>item. item_id item \<in> ?A \<or> status item = Uploading) (items st)"
    by (rule filter_cong) auto
  have c3: "length (filter (\<lambda>item. item_id item \<in> ?A \<or> status item = Uploading) (items st)) =
        length (filter (\<lambda>item. item_id item \<in> ?A) (items st)) +
        length (filter (\<lambda>item. status item = Uploading) (items st))"
    using disj by (intro length_filter_disjoint_or) auto
  have c4: "length (filter (\<lambda>item. item_id item \<in> ?A) (items st)) = length ?X"
    using d itemsToUpload_subset itemsToUpload_distinct [OF d]
    by (rule length_filter_ids)
  show ?thesis
    unfolding c1 c2 c3 c4 by (simp add: uploadingCount_def)
qed

lemma length_slice0: "0 \<le> k \<Longrightarrow> int (length (slice0 xs k)) \<le> k"
  by (simp add: slice0_def)

text \<open>
  A \<^verbatim>\<open>processQueue\<close> that reads the current store keeps the limit: the excess of
  \<open>limit_exceeded_after_uploadFiles\<close> needs a list that is out of date.
\<close>

lemma processQueue_keeps_limit_on_current_store:
  assumes d: "distinct (map item_id (items st))"
    and u: "int (uploadingCount (items st)) \<le> m"
  shows "int (uploadingCount (items (processQueue m (items st) st))) \<le> m"
proof -
  from u have "0 \<le> m - int (length (filter (\<lambda>item. status item = Uploading) (items st)))"
    by (simp add: uploadingCount_def)
  from length_slice0 [OF this]
  have "int (length (itemsToUpload m (items st) st)) \<le> m - int (uploadingCount (items st))"
    by (simp add: itemsToUpload_def uploadingCount_def)
  with uploadingCount_after_processQueue [OF d, of m] show ?thesis by simp
qed


text \<open>
  Likewise a second \<^verbatim>\<open>processQueue\<close> admits nothing when it reads the store as the
  first one left it.
\<close>

lemma slice0_drop_empty:
  "slice0 (drop (if k < 0 then nat (int (length xs) + k) else nat k) xs)
     (k - int (length (slice0 xs k))) = []"
  by (simp add: slice0_def min_def)

lemma eligible_after_processQueue:
  assumes d: "distinct (map item_id (items st))"
  shows "filter (\<lambda>item. status item = Queued \<and>
                   item_id item \<notin> uploadQueueRef (processQueue m (items st) st))
           (items (processQueue m (items st) st)) =
         drop (if m - int (uploadingCount (items st)) < 0
               then nat (int (length (filter (\<lambda>item. status item = Queued \<and>
                                 item_id item \<notin> uploadQueueRef st) (items st)))
                         + (m - int (uploadingCount (items st))))
               else nat (m - int (uploadingCount (items st))))
           (filter (\<lambda>item. status item = Queued \<and> item_id item \<notin> uploadQueueRef st) (items st))"
proof -
  let ?E = "filter (\<lambda>item. status item = Queued \<and> item_id item \<notin> uploadQueueRef st) (items st)"
  let ?k = "m - int (uploadingCount (items st))"
  let ?n = "if ?k < 0 then nat (int (length ?E) + ?k) else nat ?k"
  let ?X = "itemsToUpload m (items st) st"
  let ?A = "item_id ` set ?X"
  let ?F = "\<lambda>item. if item_id item \<in> ?A
                     then item\<lparr>status := Uploading, progress := 0\<rparr> else item"
  let ?P = "\<lambda>item. status item = Queued \<and> item_id item \<notin> uploadQueueRef st \<union> ?A"
  have X: "?X = take ?n ?E"
    by (simp add: itemsToUpload_def slice0_def uploadingCount_def)
  have e1: "filter ?P (map ?F (items st)) = map ?F (filter (?P \<circ> ?F) (items st))"
    by (rule filter_map)
  have e2: "filter (?P \<circ> ?F) (items st) =
        filter (\<lambda>item. item_id item \<notin> ?A) ?E"
    unfolding filter_filter by (rule filter_cong) auto
  have e3: "map ?F (filter (\<lambda>item. item_id item \<notin> ?A) ?E) =
        filter (\<lambda>item. item_id item \<notin> ?A) ?E"
    by (rule map_idI) simp
  have "distinct (map item_id ?E)"
    using d by (rule distinct_map_filter)
  from filter_not_in_take [OF this, of ?n]
  have e4: "filter (\<lambda>item. item_id item \<notin> ?A) ?E = drop ?n ?E"
    unfolding X .
  have "filter (\<lambda>item. status item = Queued \<and>
                   item_id item \<notin> uploadQueueRef (processQueue m (items st) st))
           (items (processQueue m (items st) st)) = filter ?P (map ?F (items st))"
    unfolding processQueue_fold fold_admit_items fold_admit_ref ..
  with e1 e2 e3 e4 show ?thesis by simp
qed

lemma processQueue_idempotent_on_current_store:
  assumes d: "distinct (map item_id (items st))"
  shows "itemsToUpload m (items (processQueue m (items st) st)) (processQueue m (items st) st) = []
    \<and> processQueue m (items (processQueue m (items st) st)) (processQueue m (items st) st) =
        processQueue m (items st) st"
proof -
  let ?st' = "processQueue m (items st) st"
  let ?E = "filter (\<lambda>item. status item = Queued \<and> item_id item \<notin> uploadQueueRef st) (items st)"
  let ?k = "m - int (uploadingCount (items st))"
  have X: "itemsToUpload m (items st) st = slice0 ?E ?k"
    by (simp add: itemsToUpload_def uploadingCount_def)
  have "itemsToUpload m (items ?st') ?st' =
        slice0 (filter (\<lambda>item. status item = Queued \<and> item_id item \<notin> uploadQueueRef ?st')
                  (items ?st'))
          (m - int (uploadingCount (items ?st')))"
    by (simp add: itemsToUpload_def uploadingCount_def)
  also have "\<dots> = slice0 (drop (if ?k < 0 then nat (int (length ?E) + ?k) else nat ?k) ?E)
          (?k - int (length (slice0 ?E ?k)))"
    unfolding eligible_after_processQueue [OF d] uploadingCount_after_processQueue [OF d] X
    by (simp add: algebra_simps)
  also have "\<dots> = []"
    by (rule slice0_drop_empty)
  finally have none: "itemsToUpload m (items ?st') ?st' = []" .
  then show ?thesis
    by (simp add: processQueue_fold [of m "items ?st'" ?st'])
qed

subsection \<open>removeItem and isUploading\<close>

lemma removeItem_items:
  "items (removeItem i st) = filter (\<lambda>item. item_id item \<noteq> i) (items st)"
proof -
  have "map (\<lambda>item. if item_id item = i
                    then item\<lparr>status := Error, error := Some ''Cancelled''\<rparr> else item)
          (filter (\<lambda>item. item_id item \<noteq> i) (items st)) =
        filter (\<lambda>item. item_id item \<noteq> i) (items st)"
    by (rule map_idI) simp
  then show ?thesis
    by (simp add: removeItem_def cancelUpload_items filter_map comp_def Let_def)
qed

lemma isUploading_iff: "isUploading its \<longleftrightarrow> 0 < uploadingCount its"
  by (simp add: isUploading_def uploadingCount_def list_ex_iff filter_empty_conv)

end
